theory Spec2Isabelle
  imports Complex_Main "HOL-Library.Char_ord" "HOL-Library.List_Lexorder" "HOL-Library.Product_Lexorder"
begin

section \<open>Numbers, missing values and pandas division\<close>

text \<open>
  The dashboard (\<^verbatim>\<open>src/dashboard.py\<close>) works on pandas columns of numbers. Finite numbers
  are modelled as exact rationals: rounding, overflow and signed zeros of binary floating
  point are outside the model. The non-finite results that pandas division produces, and
  that the code replaces afterwards, are values of their own.
\<close>

datatype py_error = KeyError | ValueError

datatype fval = Fin rat | PInf | NInf | NaN

text \<open>Series division: no exception, \<open>x / 0\<close> is an infinity and \<open>0 / 0\<close> is NaN.\<close>

fun fdiv :: "fval \<Rightarrow> fval \<Rightarrow> fval" where
  "fdiv NaN _ = NaN"
| "fdiv _ NaN = NaN"
| "fdiv (Fin a) (Fin b) =
     (if b = 0 then (if a = 0 then NaN else if 0 < a then PInf else NInf) else Fin (a / b))"
| "fdiv (Fin a) PInf = Fin 0"
| "fdiv (Fin a) NInf = Fin 0"
| "fdiv PInf (Fin b) = (if 0 \<le> b then PInf else NInf)"
| "fdiv NInf (Fin b) = (if 0 \<le> b then NInf else PInf)"
| "fdiv PInf PInf = NaN"
| "fdiv PInf NInf = NaN"
| "fdiv NInf PInf = NaN"
| "fdiv NInf NInf = NaN"

fun fmul :: "fval \<Rightarrow> fval \<Rightarrow> fval" where
  "fmul NaN _ = NaN"
| "fmul _ NaN = NaN"
| "fmul (Fin a) (Fin b) = Fin (a * b)"
| "fmul (Fin a) PInf = (if a = 0 then NaN else if 0 < a then PInf else NInf)"
| "fmul (Fin a) NInf = (if a = 0 then NaN else if 0 < a then NInf else PInf)"
| "fmul PInf (Fin b) = (if b = 0 then NaN else if 0 < b then PInf else NInf)"
| "fmul NInf (Fin b) = (if b = 0 then NaN else if 0 < b then NInf else PInf)"
| "fmul PInf PInf = PInf"
| "fmul PInf NInf = NInf"
| "fmul NInf PInf = NInf"
| "fmul NInf NInf = PInf"

text \<open>
  \<^verbatim>\<open>df.replace([float("inf"), -float("inf")], pd.NA, inplace=True); df.fillna(0, inplace=True)\<close>
  on one cell.
\<close>

fun replace_inf :: "fval \<Rightarrow> fval" where
  "replace_inf PInf = NaN"
| "replace_inf NInf = NaN"
| "replace_inf v = v"

fun fillna0 :: "fval \<Rightarrow> fval" where
  "fillna0 NaN = Fin 0"
| "fillna0 v = v"

definition fill0 :: "fval \<Rightarrow> fval" where
  "fill0 v = fillna0 (replace_inf v)"

fun is_finite :: "fval \<Rightarrow> bool" where
  "is_finite (Fin _) = True"
| "is_finite _ = False"

section \<open>Budget model\<close>

text \<open>
  \<^verbatim>\<open>daily_budget = {"MaxiBingo": 4000, "default": 2000}\<close>
\<close>

definition daily_budget :: "(string \<times> int) list" where
  "daily_budget = [(''MaxiBingo'', 4000), (''default'', 2000)]"

text \<open>Python's \<^verbatim>\<open>d[k]\<close> raises KeyError on a missing key, \<^verbatim>\<open>d.get(k, v)\<close> does not.\<close>

definition dict_index :: "(string \<times> int) list \<Rightarrow> string \<Rightarrow> py_error + int" where
  "dict_index d k = (case map_of d k of None \<Rightarrow> Inl KeyError | Some v \<Rightarrow> Inr v)"

definition dict_get :: "(string \<times> int) list \<Rightarrow> string \<Rightarrow> int \<Rightarrow> int" where
  "dict_get d k dflt = (case map_of d k of None \<Rightarrow> dflt | Some v \<Rightarrow> v)"

text \<open>
  \<^verbatim>\<open>str.isspace\<close> on the code points below 256 (a \<open>char\<close> is one such code point):
  tab to carriage return, the four separators 28 to 31, space, NEL and the no-break space.
\<close>

definition isspace :: "char \<Rightarrow> bool" where
  "isspace c = (let n = (of_char c :: nat)
                in (9 \<le> n \<and> n \<le> 13) \<or> (28 \<le> n \<and> n \<le> 32) \<or> n = 133 \<or> n = 160)"

definition strip :: "string \<Rightarrow> string" where
  "strip s = rev (dropWhile isspace (rev (dropWhile isspace s)))"

text \<open>\<^verbatim>\<open>str(x)\<close> of a cell holding a name; a missing cell (NaN) prints as \<^verbatim>\<open>nan\<close>.\<close>

fun str :: "string option \<Rightarrow> string" where
  "str (Some s) = s"
| "str None = ''nan''"

text \<open>\<^verbatim>\<open>daily_budget.get(str(app_name).strip(), daily_budget["default"])\<close>\<close>

definition daily_cap :: "string option \<Rightarrow> py_error + int" where
  "daily_cap app =
     (case dict_index daily_budget ''default'' of
        Inl e \<Rightarrow> Inl e
      | Inr dflt \<Rightarrow> Inr (dict_get daily_budget (strip (str app)) dflt))"


text \<open>
  The progress bars:
  \<^verbatim>\<open>pct_used = (spend / total_budget) * 100 if total_budget > 0 else 0\<close>
\<close>

definition pct_used :: "rat \<Rightarrow> int \<Rightarrow> rat" where
  "pct_used spend_v budget = (if 0 < budget then (spend_v / of_int budget) * 100 else 0)"

text \<open>
  The table "Performance by App":
  \<^verbatim>\<open>app_level_df["% of Budget Used"] = app_level_df["Spend ($)"] / app_level_df["Total Budget ($)"] * 100\<close>
  is a division of columns, cell by cell, with no guard.
\<close>

definition pct_of_budget_used :: "rat \<Rightarrow> int \<Rightarrow> fval" where
  "pct_of_budget_used spend_v budget = fmul (fdiv (Fin spend_v) (Fin (of_int budget))) (Fin 100)"

section \<open>Records and data frames\<close>

text \<open>
  A data frame is the list of its rows. A row has the four key columns and the six numeric
  columns the dashboard aggregates. A key cell is \<open>None\<close> when the value is missing
  (NaN, NaT); a frame produced by \<open>aggregate_data\<close> carries only its grouping columns, and
  the other key cells of its rows are \<open>None\<close>. Dates are day numbers (days since
  1970-01-01). The numeric cells are those of a loaded frame, where \<open>load_data\<close> has
  replaced every missing or infinite number by 0.
\<close>

record row =
  app_name :: "string option"
  campaign_id :: "string option"
  creative_id :: "string option"
  date :: "int option"
  spend :: rat
  installs :: rat
  impressions :: rat
  payers :: rat
  revenue :: rat
  attribution :: rat

datatype col = AppName | CampaignId | CreativeId | Date

datatype kval = Str string | Day int

fun cell :: "col \<Rightarrow> 'a row_scheme \<Rightarrow> kval option" where
  "cell AppName r = map_option Str (app_name r)"
| "cell CampaignId r = map_option Str (campaign_id r)"
| "cell CreativeId r = map_option Str (creative_id r)"
| "cell Date r = map_option Day (date r)"

text \<open>\<^verbatim>\<open>Series.unique()\<close>: the distinct values in order of first appearance.\<close>

definition unique :: "'a list \<Rightarrow> 'a list" where
  "unique xs = rev (remdups (rev xs))"

section \<open>Metric calculator\<close>

text \<open>
  The seven formulas, written twice in the source with the same right-hand sides: in
  \<open>load_data\<close> on the columns of the loaded frame (where the ROAS column is named
  \<^verbatim>\<open>ROAS D7_calc\<close>) and in \<open>aggregate_data\<close> on the columns of sums.
\<close>

record kpis =
  CPI :: fval
  IPM :: fval
  CPM :: fval
  ROAS :: fval
  Payers_pct :: fval
  ARPI :: fval
  ARPP :: fval

definition calc_kpis :: "fval \<Rightarrow> fval \<Rightarrow> fval \<Rightarrow> fval \<Rightarrow> fval \<Rightarrow> kpis" where
  "calc_kpis spend_v installs_v impressions_v revenue_v payers_v =
     \<lparr> CPI = fdiv spend_v installs_v,
       IPM = fdiv installs_v (fdiv impressions_v (Fin 1000)),
       CPM = fdiv spend_v (fdiv impressions_v (Fin 1000)),
       ROAS = fdiv revenue_v spend_v,
       Payers_pct = fdiv payers_v installs_v,
       ARPI = fdiv revenue_v installs_v,
       ARPP = fdiv revenue_v payers_v \<rparr>"

definition fill_kpis :: "kpis \<Rightarrow> kpis" where
  "fill_kpis k =
     \<lparr> CPI = fill0 (CPI k), IPM = fill0 (IPM k), CPM = fill0 (CPM k), ROAS = fill0 (ROAS k),
       Payers_pct = fill0 (Payers_pct k), ARPI = fill0 (ARPI k), ARPP = fill0 (ARPP k) \<rparr>"

text \<open>
  The calculated columns of one row of \<open>load_data\<close>, from the row's cells as parsed (a
  missing cell is NaN), after the replacement of infinities and the fill with 0.
\<close>

definition load_data_kpis :: "fval \<Rightarrow> fval \<Rightarrow> fval \<Rightarrow> fval \<Rightarrow> fval \<Rightarrow> kpis" where
  "load_data_kpis spend_v installs_v impressions_v revenue_v payers_v =
     fill_kpis (calc_kpis spend_v installs_v impressions_v revenue_v payers_v)"

section \<open>Aggregator\<close>

record group = row +
  kpi :: kpis

definition group_key :: "col list \<Rightarrow> 'a row_scheme \<Rightarrow> kval option list" where
  "group_key cols r = map (\<lambda>c. cell c r) cols"

text \<open>\<^verbatim>\<open>groupby\<close> drops the rows with a missing value in a grouping column (\<^verbatim>\<open>dropna=True\<close>).\<close>

definition notna_key :: "col list \<Rightarrow> 'a row_scheme \<Rightarrow> bool" where
  "notna_key cols r = list_all (\<lambda>c. cell c r \<noteq> None) cols"

text \<open>The groups come out sorted by key (\<^verbatim>\<open>sort=True\<close>): names as strings, dates as numbers.\<close>

fun sort_code :: "kval option \<Rightarrow> nat \<times> string \<times> int" where
  "sort_code None = (0, [], 0)"
| "sort_code (Some (Str s)) = (1, s, 0)"
| "sort_code (Some (Day d)) = (2, [], d)"

text \<open>The first row of every key, in order of appearance (\<open>seen\<close>: the keys already met).\<close>

fun firsts :: "('b \<Rightarrow> 'k) \<Rightarrow> 'k list \<Rightarrow> 'b list \<Rightarrow> 'b list" where
  "firsts f seen [] = []"
| "firsts f seen (x # xs) =
     (if f x \<in> set seen then firsts f seen xs else x # firsts f (f x # seen) xs)"

text \<open>
  One output row: the grouping columns of the group (read from a row \<open>rep\<close> of it), the five
  sums, the mean of the attribution, and the KPIs recalculated from the sums.
\<close>

definition agg_group :: "col list \<Rightarrow> 'a row_scheme \<Rightarrow> 'a row_scheme list \<Rightarrow> group" where
  "agg_group cols rep g =
     (let s = sum_list (map spend g); i = sum_list (map installs g);
          m = sum_list (map impressions g); p = sum_list (map payers g);
          v = sum_list (map revenue g)
      in \<lparr> app_name = (if AppName \<in> set cols then app_name rep else None),
           campaign_id = (if CampaignId \<in> set cols then campaign_id rep else None),
           creative_id = (if CreativeId \<in> set cols then creative_id rep else None),
           date = (if Date \<in> set cols then date rep else None),
           spend = s, installs = i, impressions = m, payers = p, revenue = v,
           attribution = sum_list (map attribution g) / of_nat (length g),
           kpi = fill_kpis (calc_kpis (Fin s) (Fin i) (Fin m) (Fin v) (Fin p)) \<rparr>)"

text \<open>
  \<^verbatim>\<open>df.groupby(group_cols, as_index=False).agg({...})\<close>, then the KPIs. An empty list of
  grouping columns is refused by pandas ("No group keys passed!"), and so is a column named
  twice (the key cannot be inserted as a column a second time).
\<close>

definition aggregate_data :: "'a row_scheme list \<Rightarrow> col list \<Rightarrow> py_error + group list" where
  "aggregate_data df group_cols =
     (if group_cols = [] \<or> \<not> distinct group_cols then Inl ValueError
      else
        let kept = filter (notna_key group_cols) df;
            reps = sort_key (\<lambda>r. map sort_code (group_key group_cols r))
                     (firsts (group_key group_cols) [] kept)
        in Inr (map (\<lambda>rep. agg_group group_cols rep
                       (filter (\<lambda>r. group_key group_cols r = group_key group_cols rep) kept))
                  reps))"

section \<open>Filter engine\<close>

fun date_ge :: "int option \<Rightarrow> int \<Rightarrow> bool" where
  "date_ge (Some d) start_date = (start_date \<le> d)"
| "date_ge None start_date = False"

fun date_le :: "int option \<Rightarrow> int \<Rightarrow> bool" where
  "date_le (Some d) end_date = (d \<le> end_date)"
| "date_le None end_date = False"

text \<open>
  The sidebar: each selection narrows the frame; the date filter is applied only when the
  date widget returns a pair.
\<close>

definition filtered_df ::
  "'a row_scheme list \<Rightarrow> string option list \<Rightarrow> string option list \<Rightarrow> string option list
     \<Rightarrow> int list \<Rightarrow> 'a row_scheme list" where
  "filtered_df df selected_apps selected_campaigns selected_creatives selected_dates =
     (let f1 = filter (\<lambda>r. app_name r \<in> set selected_apps) df;
          f2 = filter (\<lambda>r. campaign_id r \<in> set selected_campaigns) f1;
          f3 = filter (\<lambda>r. creative_id r \<in> set selected_creatives) f2
      in case selected_dates of
           [start_date, end_date] \<Rightarrow>
             filter (\<lambda>r. date_ge (date r) start_date \<and> date_le (date r) end_date) f3
         | _ \<Rightarrow> f3)"

text \<open>The dates that are not NaT.\<close>

definition present_dates :: "'a row_scheme list \<Rightarrow> int list" where
  "present_dates rs = List.map_filter date rs"

text \<open>\<^verbatim>\<open>datetime.date(2025, 1, 1)\<close> as a day number.\<close>

definition date_2025_01_01 :: int where
  "date_2025_01_01 = 20089"

text \<open>
  \<^verbatim>\<open>min_date\<close> and \<^verbatim>\<open>max_date\<close>: the bounds of the dates of the frame when it is not empty and
  has a date, else 2025-01-01 and today.
\<close>

definition date_bounds :: "'a row_scheme list \<Rightarrow> int \<Rightarrow> int \<times> int" where
  "date_bounds rs today =
     (case present_dates rs of
        [] \<Rightarrow> (date_2025_01_01, today)
      | d # ds \<Rightarrow> (fold min ds d, fold max ds d))"

text \<open>
  The selection the sidebar starts with: every widget offers, and selects, the values of
  the frame narrowed so far, and the date widget the bounds of its dates.
\<close>

definition sidebar_defaults ::
  "'a row_scheme list \<Rightarrow> int
     \<Rightarrow> string option list \<times> string option list \<times> string option list \<times> int list" where
  "sidebar_defaults df today =
     (let apps = unique (map app_name df);
          f1 = filter (\<lambda>r. app_name r \<in> set apps) df;
          campaigns = unique (map campaign_id f1);
          f2 = filter (\<lambda>r. campaign_id r \<in> set campaigns) f1;
          creatives = unique (map creative_id f2);
          f3 = filter (\<lambda>r. creative_id r \<in> set creatives) f2;
          b = date_bounds f3 today
      in (apps, campaigns, creatives, [fst b, snd b]))"

section \<open>Budget on the selected range\<close>


text \<open>
  \<^verbatim>\<open>sum(daily_budget.get(str(app).strip(), daily_budget["default"]) for app in selected_app_names)\<close>
\<close>

fun sum_caps :: "string option list \<Rightarrow> py_error + int" where
  "sum_caps [] = Inr 0"
| "sum_caps (a # as) =
     (case daily_cap a of
        Inl e \<Rightarrow> Inl e
      | Inr c \<Rightarrow> (case sum_caps as of Inl e \<Rightarrow> Inl e | Inr s \<Rightarrow> Inr (c + s)))"

definition day_total_budget :: "'a row_scheme list \<Rightarrow> py_error + int" where
  "day_total_budget filtered = sum_caps (unique (map app_name filtered))"

section \<open>Presentation formatter\<close>

text \<open>
  A cell of a displayed frame is a number (NaN when missing) or any other object, here a
  string: the ROAS and budget columns are already text when \<open>format_metrics\<close> runs.
\<close>

datatype cellv = Val fval | Obj string

text \<open>Decimal digits of a natural number.\<close>

definition digit_char :: "nat \<Rightarrow> char" where
  "digit_char d = ''0123456789'' ! (d mod 10)"

fun nat_str :: "nat \<Rightarrow> string" where
  "nat_str n = (if n < 10 then [digit_char n] else nat_str (n div 10) @ [digit_char (n mod 10)])"

declare nat_str.simps [simp del]

text \<open>
  Python rounds a formatted number to the nearest value with the digits asked for, a tie
  to the even neighbour.
\<close>

definition round_half_even :: "rat \<Rightarrow> int" where
  "round_half_even x =
     (let f = \<lfloor>x\<rfloor>; d = x - of_int f
      in if d < 1 / 2 then f else if 1 / 2 < d then f + 1 else if even f then f else f + 1)"

text \<open>The thousands separator of the \<^verbatim>\<open>,\<close> format option, on the reversed digits.\<close>

fun group3_rev :: "string \<Rightarrow> string" where
  "group3_rev (a # b # c # d # ds) = a # b # c # CHR '','' # group3_rev (d # ds)"
| "group3_rev ds = ds"

definition group3 :: "string \<Rightarrow> string" where
  "group3 ds = rev (group3_rev (rev ds))"

definition sign_str :: "rat \<Rightarrow> string" where
  "sign_str x = (if x < 0 then ''-'' else [])"

text \<open>\<^verbatim>\<open>f"{x:.2f}"\<close>\<close>

fun fmt_2f :: "fval \<Rightarrow> string" where
  "fmt_2f (Fin x) =
     (let n = nat (round_half_even (\<bar>x\<bar> * 100))
      in sign_str x @ nat_str (n div 100) @ ''.'' @
         [digit_char ((n mod 100) div 10), digit_char (n mod 10)])"
| "fmt_2f PInf = ''inf''"
| "fmt_2f NInf = ''-inf''"
| "fmt_2f NaN = ''nan''"

text \<open>\<^verbatim>\<open>f"{x:,.0f}"\<close>\<close>

fun fmt_comma_0f :: "fval \<Rightarrow> string" where
  "fmt_comma_0f (Fin x) = sign_str x @ group3 (nat_str (nat (round_half_even \<bar>x\<bar>)))"
| "fmt_comma_0f PInf = ''inf''"
| "fmt_comma_0f NInf = ''-inf''"
| "fmt_comma_0f NaN = ''nan''"

text \<open>\<^verbatim>\<open>f"{x:.2%}"\<close>: the number times 100, two decimals, a percent sign.\<close>

definition fmt_2pct :: "fval \<Rightarrow> string" where
  "fmt_2pct v = fmt_2f (fmul v (Fin 100)) @ ''%''"

text \<open>\<^verbatim>\<open>s.replace(",", ".")\<close>\<close>

definition replace_comma :: "string \<Rightarrow> string" where
  "replace_comma s = map (\<lambda>c. if c = CHR '','' then CHR ''.'' else c) s"

definition thousand_cols :: "string list" where
  "thousand_cols = [''Spend ($)'', ''Installs'', ''Impressions'',
                    ''Revenue D7'', ''Payers D7'', ''Total Budget ($)'']"

definition percent_cols :: "string list" where
  "percent_cols = [''Attribution %'', ''Payers %'']"

definition decimal_cols :: "string list" where
  "decimal_cols = [''CPI'', ''IPM'', ''CPM'', ''ARPI'', ''ARPP'']"

text \<open>\<^verbatim>\<open>pd.notna(x) and isinstance(x, (int, float))\<close>\<close>

fun is_number :: "cellv \<Rightarrow> bool" where
  "is_number (Val NaN) = False"
| "is_number (Val v) = True"
| "is_number (Obj s) = False"

fun the_val :: "cellv \<Rightarrow> fval" where
  "the_val (Val v) = v"
| "the_val (Obj s) = NaN"

text \<open>One cell of \<open>format_metrics\<close>: the column's name chooses the format.\<close>

definition format_metrics :: "string \<Rightarrow> cellv \<Rightarrow> cellv" where
  "format_metrics column x =
     (if column \<in> set thousand_cols then
        (if is_number x then Obj (replace_comma (fmt_comma_0f (the_val x))) else x)
      else if column \<in> set percent_cols then
        (if is_number x then Obj (fmt_2pct (the_val x)) else x)
      else if column \<in> set decimal_cols then
        (if is_number x then Obj (fmt_2f (the_val x)) else x)
      else x)"

section \<open>Example frames\<close>

text \<open>
  The records of the scenarios: one row of app A with spend 100, 10 installs, 5000
  impressions, revenue 50 and 2 payers; a second row of app A on the same day with spend
  200; a row of MaxiBingo on the next day.
\<close>

definition row_A1 :: row where
  "row_A1 = \<lparr> app_name = Some ''A'', campaign_id = Some ''c1'', creative_id = Some ''k1'',
               date = Some 20089, spend = 100, installs = 10, impressions = 5000, payers = 2,
               revenue = 50, attribution = 1 / 2 \<rparr>"

definition row_A2 :: row where
  "row_A2 = \<lparr> app_name = Some ''A'', campaign_id = Some ''c2'', creative_id = Some ''k2'',
               date = Some 20089, spend = 200, installs = 0, impressions = 0, payers = 0,
               revenue = 0, attribution = 1 / 4 \<rparr>"

definition row_M :: row where
  "row_M = \<lparr> app_name = Some ''MaxiBingo'', campaign_id = Some ''c3'', creative_id = Some ''k1'',
              date = Some 20090, spend = 500, installs = 20, impressions = 1000, payers = 5,
              revenue = 700, attribution = 1 \<rparr>"

text \<open>A row with no activity at all, and the two groups of the three rows above by date.\<close>

definition row_Z :: row where
  "row_Z = \<lparr> app_name = Some ''Z'', campaign_id = Some ''c9'', creative_id = Some ''k9'',
              date = Some 20091, spend = 0, installs = 0, impressions = 0, payers = 0,
              revenue = 0, attribution = 0 \<rparr>"

definition groups_by_date :: "group list" where
  "groups_by_date =
     [\<lparr> app_name = None, campaign_id = None, creative_id = None, date = Some 20089,
        spend = 300, installs = 10, impressions = 5000, payers = 2, revenue = 50,
        attribution = 3 / 8,
        kpi = \<lparr> CPI = Fin 30, IPM = Fin 2, CPM = Fin 60, ROAS = Fin (1 / 6),
                Payers_pct = Fin (1 / 5), ARPI = Fin 5, ARPP = Fin 25 \<rparr> \<rparr>,
      \<lparr> app_name = None, campaign_id = None, creative_id = None, date = Some 20090,
        spend = 500, installs = 20, impressions = 1000, payers = 5, revenue = 700,
        attribution = 1,
        kpi = \<lparr> CPI = Fin 25, IPM = Fin 20, CPM = Fin 500, ROAS = Fin (7 / 5),
                Payers_pct = Fin (1 / 4), ARPI = Fin 35, ARPP = Fin 140 \<rparr> \<rparr>]"

definition group_Z :: group where
  "group_Z = \<lparr> app_name = Some ''Z'', campaign_id = None, creative_id = None, date = None,
                spend = 0, installs = 0, impressions = 0, payers = 0, revenue = 0,
                attribution = 0,
                kpi = \<lparr> CPI = Fin 0, IPM = Fin 0, CPM = Fin 0, ROAS = Fin 0,
                        Payers_pct = Fin 0, ARPI = Fin 0, ARPP = Fin 0 \<rparr> \<rparr>"


section \<open>Properties of the budget model\<close>

subsection \<open>Trimming and lookup\<close>

lemma dropWhile_all: "list_all P xs \<Longrightarrow> dropWhile P (xs @ ys) = dropWhile P ys"
  by (induction xs) simp_all

lemma strip_surrounded:
  assumes l: "list_all isspace l" and t: "list_all isspace t"
    and s: "s \<noteq> []" "\<not> isspace (hd s)" "\<not> isspace (last s)"
  shows "strip (l @ s @ t) = s"
proof -
  from s obtain a s' where as: "s = a # s'" "\<not> isspace a"
    by (cases s) auto
  have 1: "dropWhile isspace (l @ s @ t) = s @ t"
    using l as by (simp add: dropWhile_all)
  from s have "rev s \<noteq> []" "hd (rev s) = last s"
    by (simp_all add: hd_rev)
  with s obtain b u where bu: "rev s = b # u" "\<not> isspace b"
    by (cases "rev s") auto
  have "list_all isspace (rev t)"
    using t by (simp add: list_all_iff)
  then have "dropWhile isspace (rev (s @ t)) = rev s"
    using bu by (simp add: dropWhile_all)
  with 1 show ?thesis
    by (simp add: strip_def)
qed

lemma daily_cap_get: "daily_cap app = Inr (dict_get daily_budget (strip (str app)) 2000)"
  by (simp add: daily_cap_def dict_index_def daily_budget_def)

lemma dict_get_daily_budget:
  "dict_get daily_budget k 2000 = (if k = ''MaxiBingo'' then 4000 else 2000)"
  by (simp add: dict_get_def daily_budget_def)

lemma strip_MaxiBingo: "strip ''MaxiBingo'' = ''MaxiBingo''"
  by (simp add: strip_def isspace_def)

text \<open>
  Claim C9. The daily-budget lookup never raises: for every app name it returns the cap
  configured for the trimmed name, and the default 2000 when the trimmed name is not
  configured. The match is exact on the trimmed name: \<open>MaxiBingo\<close> surrounded by any
  whitespace gives 4000, \<open>maxibingo\<close> and \<open>UnknownApp\<close> give 2000.
\<close>

theorem daily_cap_lookup:
  "daily_cap app = Inr (dict_get daily_budget (strip (str app)) 2000)
   \<and> daily_cap app = Inr (if strip (str app) = ''MaxiBingo'' then 4000 else 2000)
   \<and> (list_all isspace l \<and> list_all isspace t
        \<longrightarrow> daily_cap (Some (l @ ''MaxiBingo'' @ t)) = Inr 4000)
   \<and> daily_cap (Some ''MaxiBingo'') = Inr 4000
   \<and> daily_cap (Some ''UnknownApp'') = Inr 2000
   \<and> daily_cap (Some ''maxibingo'') = Inr 2000"
proof -
  have trimmed: "daily_cap (Some (l @ ''MaxiBingo'' @ t)) = Inr 4000"
    if "list_all isspace l" "list_all isspace t"
  proof -
    have "strip (l @ ''MaxiBingo'' @ t) = ''MaxiBingo''"
      using that by (intro strip_surrounded) (simp_all add: isspace_def)
    then show ?thesis
      by (simp add: daily_cap_get dict_get_daily_budget)
  qed
  have ex: "strip ''UnknownApp'' = ''UnknownApp''" "strip ''maxibingo'' = ''maxibingo''"
    by (simp_all add: strip_def isspace_def)
  show ?thesis
    using trimmed by (simp add: daily_cap_get dict_get_daily_budget ex strip_MaxiBingo)
qed

theorem daily_cap_lookup_witness:
  "list_all isspace ''  '' \<and> list_all isspace [CHR 0x09]
   \<and> daily_cap (Some (''  '' @ ''MaxiBingo'' @ [CHR 0x09])) = Inr 4000"
proof -
  have h: "list_all isspace ''  '' \<and> list_all isspace [CHR 0x09]"
    by (simp add: isspace_def)
  with daily_cap_lookup [of "Some ''x''" "''  ''" "[CHR 0x09]"] show ?thesis
    by blast
qed

subsection \<open>The budget of a day\<close>

lemma sum_caps_eq:
  "sum_caps as = Inr (sum_list (map (\<lambda>a. dict_get daily_budget (strip (str a)) 2000) as))"
  by (induction as) (simp_all add: daily_cap_get)

lemma distinct_unique: "distinct (unique xs)"
  by (simp add: unique_def)

lemma set_unique: "set (unique xs) = set xs"
  by (simp add: unique_def)

text \<open>
  Claim C5. In the day-level view the total budget of a day is the sum of the daily caps
  over the set of distinct app names of the filtered frame: it is a function of the
  filtered frame alone, neither of the whole data set nor of the selected dates.
\<close>

theorem day_total_budget_sum:
  "day_total_budget filtered =
     Inr (\<Sum>a \<in> set (map app_name filtered). dict_get daily_budget (strip (str a)) 2000)"
proof -
  have "sum_list (map (\<lambda>a. dict_get daily_budget (strip (str a)) 2000)
                   (unique (map app_name filtered)))
        = (\<Sum>a \<in> set (unique (map app_name filtered)).
             dict_get daily_budget (strip (str a)) 2000)"
    by (rule sum_list_distinct_conv_sum_set) (rule distinct_unique)
  then show ?thesis
    by (simp add: day_total_budget_def sum_caps_eq set_unique)
qed

theorem day_total_budget_sum_witness:
  "day_total_budget [row_A1, row_M, row_A2] = Inr 6000"
proof -
  have s: "strip ''A'' = ''A''"
    by (simp add: strip_def isspace_def)
  have e: "set (map app_name [row_A1, row_M, row_A2]) = {Some ''A'', Some ''MaxiBingo''}"
    by (auto simp: row_A1_def row_M_def row_A2_def)
  have "(\<Sum>a \<in> {Some ''A'', Some ''MaxiBingo''}. dict_get daily_budget (strip (str a)) 2000)
        = 6000"
    by (simp add: dict_get_daily_budget s strip_MaxiBingo)
  with day_total_budget_sum [of "[row_A1, row_M, row_A2]"] e show ?thesis
    by simp
qed

subsection \<open>Utilisation\<close>

lemma pct_used_spec:
  "pct_used s b = (if 0 < b then s / of_int b * 100 else 0)"
  by (simp add: pct_used_def)

lemma pct_of_budget_used_pos:
  "0 < b \<Longrightarrow> pct_of_budget_used s b = Fin (pct_used s b)"
  by (simp add: pct_of_budget_used_def pct_used_def)


subsection \<open>The number of days\<close>




section \<open>Properties of the formatter\<close>

subsection \<open>The format of a column\<close>


lemma format_other_column:
  "column \<notin> set thousand_cols \<Longrightarrow> column \<notin> set percent_cols \<Longrightarrow> column \<notin> set decimal_cols
     \<Longrightarrow> format_metrics column x = x"
  by (simp add: format_metrics_def)






subsection \<open>Rounding and digits\<close>






lemma digit_char_in: "digit_char d \<in> set ''0123456789''"
proof -
  have "d mod 10 < 10" by simp
  then have "d mod 10 = 0 \<or> d mod 10 = 1 \<or> d mod 10 = 2 \<or> d mod 10 = 3 \<or> d mod 10 = 4
      \<or> d mod 10 = 5 \<or> d mod 10 = 6 \<or> d mod 10 = 7 \<or> d mod 10 = 8 \<or> d mod 10 = 9"
    by arith
  then show ?thesis
    unfolding digit_char_def by (elim disjE) simp_all
qed

lemma nat_str_digits: "set (nat_str n) \<subseteq> set ''0123456789''"
proof (induction n rule: nat_str.induct)
  case (1 n)
  show ?case
  proof (cases "n < 10")
    case True
    then show ?thesis
      using digit_char_in [of n] by (subst nat_str.simps) simp
  next
    case False
    with 1 have "set (nat_str (n div 10)) \<subseteq> set ''0123456789''" by simp
    with False show ?thesis
      using digit_char_in [of "n mod 10"] by (subst nat_str.simps) simp
  qed
qed

lemma group3_rev_ungroup:
  "CHR '','' \<notin> set ds \<Longrightarrow> filter (\<lambda>c. c \<noteq> CHR '','') (group3_rev ds) = ds"
  by (induction ds rule: group3_rev.induct) auto

lemma group3_ungroup:
  assumes "CHR '','' \<notin> set ds"
  shows "filter (\<lambda>c. c \<noteq> CHR '','') (group3 ds) = ds"
proof -
  have "filter (\<lambda>c. c \<noteq> CHR '','') (group3_rev (rev ds)) = rev ds"
    using assms by (intro group3_rev_ungroup) simp
  then show ?thesis
    by (simp add: group3_def rev_filter [symmetric])
qed

subsection \<open>The examples\<close>






section \<open>Properties of the filter\<close>

lemma filter_isin_unique: "filter (\<lambda>r. f r \<in> set (unique (map f rs))) rs = rs"
  by (simp add: unique_def)

lemma fold_min_lower: "fold min ds d \<le> (d::int) \<and> (\<forall>x \<in> set ds. fold min ds d \<le> x)"
proof (induction ds arbitrary: d)
  case Nil
  show ?case by simp
next
  case (Cons a ds)
  from Cons.IH [of "min a d"]
  have "fold min ds (min a d) \<le> min a d" "\<forall>x \<in> set ds. fold min ds (min a d) \<le> x"
    by simp_all
  then show ?case by simp
qed

lemma fold_max_upper: "(d::int) \<le> fold max ds d \<and> (\<forall>x \<in> set ds. x \<le> fold max ds d)"
proof (induction ds arbitrary: d)
  case Nil
  show ?case by simp
next
  case (Cons a ds)
  from Cons.IH [of "max a d"]
  have "max a d \<le> fold max ds (max a d)" "\<forall>x \<in> set ds. x \<le> fold max ds (max a d)"
    by simp_all
  then show ?case by simp
qed

lemma fold_min_le: "x \<in> set (d # ds) \<Longrightarrow> fold min ds d \<le> (x::int)"
  using fold_min_lower [of ds d] by auto

lemma fold_max_ge: "x \<in> set (d # ds) \<Longrightarrow> (x::int) \<le> fold max ds d"
  using fold_max_upper [of d ds] by auto

lemma present_dates_mem: "date r = Some d \<Longrightarrow> r \<in> set rs \<Longrightarrow> d \<in> set (present_dates rs)"
  by (force simp: present_dates_def List.map_filter_def)

lemma date_bounds_cover:
  assumes "r \<in> set rs" "date r = Some d"
  shows "fst (date_bounds rs today) \<le> d \<and> d \<le> snd (date_bounds rs today)"
proof -
  from assms have m: "d \<in> set (present_dates rs)"
    by (simp add: present_dates_mem)
  then obtain e es where e: "present_dates rs = e # es"
    by (cases "present_dates rs") auto
  with m have "fold min es e \<le> d" "d \<le> fold max es e"
    by (simp_all add: fold_min_le fold_max_ge)
  with e show ?thesis
    by (simp add: date_bounds_def)
qed

lemma sidebar_defaults_eq:
  "sidebar_defaults df today =
     (unique (map app_name df), unique (map campaign_id df), unique (map creative_id df),
      [fst (date_bounds df today), snd (date_bounds df today)])"
  by (simp add: sidebar_defaults_def Let_def filter_isin_unique)

text \<open>
  Claim C7. Filtering a frame, every row of which has a date, by the default selection
  (all the app names, campaign ids and creative ids observed, and the range from the
  first to the last date of the data) returns the frame unchanged; this is the selection
  the sidebar starts with.
\<close>

theorem default_selection_identity:
  assumes "\<forall>r \<in> set df. date r \<noteq> None"
  shows "filtered_df df (unique (map app_name df)) (unique (map campaign_id df))
           (unique (map creative_id df))
           [fst (date_bounds df today), snd (date_bounds df today)] = df
         \<and> sidebar_defaults df today =
             (unique (map app_name df), unique (map campaign_id df),
              unique (map creative_id df),
              [fst (date_bounds df today), snd (date_bounds df today)])"
proof -
  have "date_ge (date r) (fst (date_bounds df today))
        \<and> date_le (date r) (snd (date_bounds df today))"
    if "r \<in> set df" for r
  proof -
    from that assms obtain d where d: "date r = Some d" by auto
    with date_bounds_cover [OF that d, of today] show ?thesis by simp
  qed
  then show ?thesis
    by (simp add: filtered_df_def Let_def set_unique filter_id_conv sidebar_defaults_eq)
qed

theorem default_selection_identity_witness:
  "date row_A1 \<noteq> None \<and> date row_M \<noteq> None \<and> date row_A2 \<noteq> None
   \<and> filtered_df [row_A1, row_M, row_A2] (unique (map app_name [row_A1, row_M, row_A2]))
       (unique (map campaign_id [row_A1, row_M, row_A2]))
       (unique (map creative_id [row_A1, row_M, row_A2]))
       [fst (date_bounds [row_A1, row_M, row_A2] 20400),
        snd (date_bounds [row_A1, row_M, row_A2] 20400)] = [row_A1, row_M, row_A2]"
proof -
  have h: "\<forall>r \<in> set [row_A1, row_M, row_A2]. date r \<noteq> None"
    by (simp add: row_A1_def row_M_def row_A2_def)
  from h have h': "date row_A1 \<noteq> None" "date row_M \<noteq> None" "date row_A2 \<noteq> None"
    by simp_all
  from default_selection_identity [OF h, of 20400] h' show ?thesis
    by blast
qed

section \<open>Properties of the aggregator\<close>

subsection \<open>Grouping\<close>

lemma firsts_subset: "set (firsts f seen xs) \<subseteq> set xs"
  by (induction xs arbitrary: seen) auto

lemma firsts_keys: "f ` set (firsts f seen xs) = f ` set xs - set seen"
  by (induction xs arbitrary: seen) auto

lemma firsts_distinct: "distinct (map f (firsts f seen xs))"
proof (induction xs arbitrary: seen)
  case Nil
  show ?case by simp
next
  case (Cons x xs)
  have "f x \<notin> f ` set (firsts f (f x # seen) xs)"
    by (simp add: firsts_keys)
  with Cons show ?case by simp
qed

lemma firsts_id:
  "distinct (map f xs) \<Longrightarrow> f ` set xs \<inter> set seen = {} \<Longrightarrow> firsts f seen xs = xs"
  by (induction xs arbitrary: seen) auto

lemma filter_key_singleton:
  "distinct (map f xs) \<Longrightarrow> x \<in> set xs \<Longrightarrow> filter (\<lambda>y. f y = f x) xs = [x]"
proof (induction xs)
  case Nil
  then show ?case by simp
next
  case (Cons a xs)
  show ?case
  proof (cases "a = x")
    case True
    with Cons.prems have "\<forall>y \<in> set xs. f y \<noteq> f x" by (fastforce simp: image_iff)
    then have "filter (\<lambda>y. f y = f x) xs = []" by (simp add: filter_empty_conv)
    with True show ?thesis by simp
  next
    case False
    with Cons.prems have "x \<in> set xs" "f a \<noteq> f x" "distinct (map f xs)" by auto
    with Cons.IH show ?thesis by simp
  qed
qed




lemma cell_agg_group: "c \<in> set cols \<Longrightarrow> cell c (agg_group cols rep g) = cell c rep"
  by (cases c) (simp_all add: agg_group_def Let_def)

lemma group_key_agg_group: "group_key cols (agg_group cols rep g) = group_key cols rep"
  by (simp add: group_key_def cell_agg_group)

lemma notna_agg_group: "notna_key cols rep \<Longrightarrow> notna_key cols (agg_group cols rep g)"
  by (simp add: notna_key_def list_all_iff cell_agg_group)


lemma agg_group_kpi:
  "kpi (agg_group cols rep g) =
     fill_kpis (calc_kpis (Fin (spend (agg_group cols rep g))) (Fin (installs (agg_group cols rep g)))
       (Fin (impressions (agg_group cols rep g))) (Fin (revenue (agg_group cols rep g)))
       (Fin (payers (agg_group cols rep g))))"
  by (simp add: agg_group_def Let_def)

lemma agg_group_idem:
  "agg_group cols (agg_group cols rep m) [agg_group cols rep m] = agg_group cols rep m"
  by (simp add: agg_group_def Let_def)

lemma aggregate_data_reps:
  assumes "cols \<noteq> []" "distinct cols"
  obtains reps where
    "aggregate_data df cols =
       Inr (map (\<lambda>rep. agg_group cols rep
                   (filter (\<lambda>r. group_key cols r = group_key cols rep)
                      (filter (notna_key cols) df))) reps)"
    "set reps \<subseteq> set (filter (notna_key cols) df)"
    "distinct (map (group_key cols) reps)"
    "group_key cols ` set reps = group_key cols ` set (filter (notna_key cols) df)"
    "sorted (map (\<lambda>r. map sort_code (group_key cols r)) reps)"
proof -
  let ?kept = "filter (notna_key cols) df"
  let ?reps = "sort_key (\<lambda>r. map sort_code (group_key cols r)) (firsts (group_key cols) [] ?kept)"
  have 1: "aggregate_data df cols =
       Inr (map (\<lambda>rep. agg_group cols rep
                   (filter (\<lambda>r. group_key cols r = group_key cols rep) ?kept)) ?reps)"
    using assms by (simp add: aggregate_data_def Let_def)
  have 2: "set ?reps \<subseteq> set ?kept"
    using firsts_subset [of "group_key cols" "[]" ?kept] by simp
  have 3: "distinct (map (group_key cols) ?reps)"
    using firsts_distinct [of "group_key cols" "[]" ?kept] by (simp add: distinct_map)
  have 4: "group_key cols ` set ?reps = group_key cols ` set ?kept"
    using firsts_keys [of "group_key cols" "[]" ?kept] by simp
  have 5: "sorted (map (\<lambda>r. map sort_code (group_key cols r)) ?reps)"
    by (rule sorted_sort_key)
  from 1 2 3 4 5 show ?thesis by (rule that)
qed

lemma aggregate_data_Inr_cols:
  "aggregate_data df cols = Inr gs \<Longrightarrow> cols \<noteq> [] \<and> distinct cols"
  by (auto simp: aggregate_data_def split: if_splits)


subsection \<open>Sums and idempotence\<close>

lemma rows_by_date:
  "aggregate_data [row_A1, row_M, row_A2] [Date] = Inr groups_by_date"
  by (simp add: aggregate_data_def Let_def notna_key_def group_key_def row_A1_def row_A2_def
      row_M_def agg_group_def fill_kpis_def calc_kpis_def fill0_def groups_by_date_def)



text \<open>
  Claim C6. Aggregating the result of an aggregation again by the same columns returns
  that result: the same groups with the same keys, the same sums of spend, installs,
  impressions, payers and revenue (and the same mean and KPIs).
\<close>

theorem aggregate_data_idempotent:
  assumes "aggregate_data df group_cols = Inr gs"
  shows "aggregate_data gs group_cols = Inr gs"
proof -
  let ?K = "group_key group_cols"
  let ?sk = "\<lambda>r. map sort_code (group_key group_cols r)"
  from assms have cols: "group_cols \<noteq> []" "distinct group_cols"
    by (simp_all add: aggregate_data_Inr_cols)
  from cols obtain reps where
    a: "aggregate_data df group_cols =
       Inr (map (\<lambda>rep. agg_group group_cols rep
                   (filter (\<lambda>r. ?K r = ?K rep) (filter (notna_key group_cols) df))) reps)"
    and sub: "set reps \<subseteq> set (filter (notna_key group_cols) df)"
    and d: "distinct (map ?K reps)"
    and srt: "sorted (map (\<lambda>r. map sort_code (?K r)) reps)"
    by (rule aggregate_data_reps [of group_cols df])
  from a assms have gs: "gs = map (\<lambda>rep. agg_group group_cols rep
                   (filter (\<lambda>r. ?K r = ?K rep) (filter (notna_key group_cols) df))) reps"
    by simp
  have keys: "map ?K gs = map ?K reps"
    by (simp add: gs group_key_agg_group)
  have skeys: "map ?sk gs = map ?sk reps"
    by (simp add: gs group_key_agg_group)
  have "\<forall>g \<in> set gs. notna_key group_cols g"
    using sub by (auto simp: gs intro: notna_agg_group)
  then have kept: "filter (notna_key group_cols) gs = gs"
    by (simp add: filter_id_conv)
  have dg: "distinct (map ?K gs)"
    using d by (simp add: keys)
  then have f: "firsts ?K [] gs = gs"
    by (simp add: firsts_id)
  have s: "sort_key ?sk gs = gs"
    using srt by (intro sort_key_id_if_sorted) (simp add: skeys)
  have m: "map (\<lambda>g. agg_group group_cols g (filter (\<lambda>r. ?K r = ?K g) gs)) gs = gs"
  proof (rule map_idI)
    fix g assume g: "g \<in> set gs"
    then have "filter (\<lambda>r. ?K r = ?K g) gs = [g]"
      using dg by (simp add: filter_key_singleton)
    moreover from g obtain rep where "g = agg_group group_cols rep
          (filter (\<lambda>r. ?K r = ?K rep) (filter (notna_key group_cols) df))"
      by (auto simp: gs)
    ultimately show "agg_group group_cols g (filter (\<lambda>r. ?K r = ?K g) gs) = g"
      by (simp add: agg_group_idem)
  qed
  show ?thesis
    using cols by (simp add: aggregate_data_def Let_def kept f s m)
qed

theorem aggregate_data_idempotent_witness:
  "aggregate_data [row_A1, row_M, row_A2] [Date] = Inr groups_by_date
   \<and> aggregate_data groups_by_date [Date] = Inr groups_by_date"
proof -
  have h: "aggregate_data [row_A1, row_M, row_A2] [Date] = Inr groups_by_date"
    by (simp add: aggregate_data_def Let_def notna_key_def group_key_def row_A1_def row_A2_def
      row_M_def agg_group_def fill_kpis_def calc_kpis_def fill0_def groups_by_date_def)
  from aggregate_data_idempotent [OF h] h show ?thesis
    by blast
qed

subsection \<open>Zero denominators\<close>

lemma fill0_div_zero: "fill0 (fdiv x (Fin 0)) = Fin 0"
  by (cases x) (simp_all add: fill0_def)

lemma fill0_finite: "is_finite (fill0 v)"
  by (cases v) (simp_all add: fill0_def)

lemma kpis_zero_safe:
  "(i = Fin 0 \<longrightarrow> CPI (fill_kpis (calc_kpis s i m v p)) = Fin 0
                 \<and> Payers_pct (fill_kpis (calc_kpis s i m v p)) = Fin 0
                 \<and> ARPI (fill_kpis (calc_kpis s i m v p)) = Fin 0)
   \<and> (m = Fin 0 \<longrightarrow> IPM (fill_kpis (calc_kpis s i m v p)) = Fin 0
                 \<and> CPM (fill_kpis (calc_kpis s i m v p)) = Fin 0)
   \<and> (s = Fin 0 \<longrightarrow> ROAS (fill_kpis (calc_kpis s i m v p)) = Fin 0)
   \<and> (p = Fin 0 \<longrightarrow> ARPP (fill_kpis (calc_kpis s i m v p)) = Fin 0)"
  by (simp add: fill_kpis_def calc_kpis_def fill0_div_zero)

lemma kpis_finite:
  "is_finite (CPI (fill_kpis k)) \<and> is_finite (IPM (fill_kpis k)) \<and> is_finite (CPM (fill_kpis k))
   \<and> is_finite (ROAS (fill_kpis k)) \<and> is_finite (Payers_pct (fill_kpis k))
   \<and> is_finite (ARPI (fill_kpis k)) \<and> is_finite (ARPP (fill_kpis k))"
  by (simp add: fill_kpis_def fill0_finite)

lemma aggregate_data_kpi:
  assumes "aggregate_data df cols = Inr gs" "g \<in> set gs"
  shows "kpi g = fill_kpis (calc_kpis (Fin (spend g)) (Fin (installs g)) (Fin (impressions g))
                   (Fin (revenue g)) (Fin (payers g)))"
proof -
  from assms(1) have "cols \<noteq> []" "distinct cols"
    by (simp_all add: aggregate_data_Inr_cols)
  then obtain reps where
    "aggregate_data df cols =
       Inr (map (\<lambda>rep. agg_group cols rep
                   (filter (\<lambda>r. group_key cols r = group_key cols rep)
                      (filter (notna_key cols) df))) reps)"
    by (rule aggregate_data_reps [of cols df])
  with assms obtain rep where "g = agg_group cols rep
          (filter (\<lambda>r. group_key cols r = group_key cols rep) (filter (notna_key cols) df))"
    by auto
  then show ?thesis
    by (simp only: agg_group_kpi [symmetric])
qed

text \<open>
  Claim C2. A derived metric whose denominator is zero is 0, on a row of the loaded frame
  and on an aggregated group alike: CPI, Payers % and ARPI when installs are 0, IPM and
  CPM when impressions are 0, ROAS when spend is 0, ARPP when payers are 0. No metric is
  ever an infinity or undefined: after the replacement every one is a finite number.
\<close>

theorem kpis_zero_denominator:
  "(i = Fin 0 \<longrightarrow> CPI (load_data_kpis s i m v p) = Fin 0
                 \<and> Payers_pct (load_data_kpis s i m v p) = Fin 0
                 \<and> ARPI (load_data_kpis s i m v p) = Fin 0)
   \<and> (m = Fin 0 \<longrightarrow> IPM (load_data_kpis s i m v p) = Fin 0
                 \<and> CPM (load_data_kpis s i m v p) = Fin 0)
   \<and> (s = Fin 0 \<longrightarrow> ROAS (load_data_kpis s i m v p) = Fin 0)
   \<and> (p = Fin 0 \<longrightarrow> ARPP (load_data_kpis s i m v p) = Fin 0)
   \<and> is_finite (CPI (load_data_kpis s i m v p)) \<and> is_finite (IPM (load_data_kpis s i m v p))
   \<and> is_finite (CPM (load_data_kpis s i m v p)) \<and> is_finite (ROAS (load_data_kpis s i m v p))
   \<and> is_finite (Payers_pct (load_data_kpis s i m v p))
   \<and> is_finite (ARPI (load_data_kpis s i m v p)) \<and> is_finite (ARPP (load_data_kpis s i m v p))
   \<and> (aggregate_data df group_cols = Inr gs \<longrightarrow>
        (\<forall>g \<in> set gs.
           (installs g = 0 \<longrightarrow> CPI (kpi g) = Fin 0 \<and> Payers_pct (kpi g) = Fin 0
                                 \<and> ARPI (kpi g) = Fin 0)
         \<and> (impressions g = 0 \<longrightarrow> IPM (kpi g) = Fin 0 \<and> CPM (kpi g) = Fin 0)
         \<and> (spend g = 0 \<longrightarrow> ROAS (kpi g) = Fin 0)
         \<and> (payers g = 0 \<longrightarrow> ARPP (kpi g) = Fin 0)
         \<and> is_finite (CPI (kpi g)) \<and> is_finite (IPM (kpi g)) \<and> is_finite (CPM (kpi g))
         \<and> is_finite (ROAS (kpi g)) \<and> is_finite (Payers_pct (kpi g))
         \<and> is_finite (ARPI (kpi g)) \<and> is_finite (ARPP (kpi g))))"
proof -
  have rows: "(i = Fin 0 \<longrightarrow> CPI (load_data_kpis s i m v p) = Fin 0
                 \<and> Payers_pct (load_data_kpis s i m v p) = Fin 0
                 \<and> ARPI (load_data_kpis s i m v p) = Fin 0)
   \<and> (m = Fin 0 \<longrightarrow> IPM (load_data_kpis s i m v p) = Fin 0
                 \<and> CPM (load_data_kpis s i m v p) = Fin 0)
   \<and> (s = Fin 0 \<longrightarrow> ROAS (load_data_kpis s i m v p) = Fin 0)
   \<and> (p = Fin 0 \<longrightarrow> ARPP (load_data_kpis s i m v p) = Fin 0)"
    unfolding load_data_kpis_def by (rule kpis_zero_safe)
  have fin: "is_finite (CPI (load_data_kpis s i m v p)) \<and> is_finite (IPM (load_data_kpis s i m v p))
   \<and> is_finite (CPM (load_data_kpis s i m v p)) \<and> is_finite (ROAS (load_data_kpis s i m v p))
   \<and> is_finite (Payers_pct (load_data_kpis s i m v p))
   \<and> is_finite (ARPI (load_data_kpis s i m v p)) \<and> is_finite (ARPP (load_data_kpis s i m v p))"
    unfolding load_data_kpis_def by (rule kpis_finite)
  have groups: "(installs g = 0 \<longrightarrow> CPI (kpi g) = Fin 0 \<and> Payers_pct (kpi g) = Fin 0
                                 \<and> ARPI (kpi g) = Fin 0)
         \<and> (impressions g = 0 \<longrightarrow> IPM (kpi g) = Fin 0 \<and> CPM (kpi g) = Fin 0)
         \<and> (spend g = 0 \<longrightarrow> ROAS (kpi g) = Fin 0)
         \<and> (payers g = 0 \<longrightarrow> ARPP (kpi g) = Fin 0)
         \<and> is_finite (CPI (kpi g)) \<and> is_finite (IPM (kpi g)) \<and> is_finite (CPM (kpi g))
         \<and> is_finite (ROAS (kpi g)) \<and> is_finite (Payers_pct (kpi g))
         \<and> is_finite (ARPI (kpi g)) \<and> is_finite (ARPP (kpi g))"
    if "aggregate_data df group_cols = Inr gs" "g \<in> set gs" for g
  proof -
    have k: "kpi g = fill_kpis (calc_kpis (Fin (spend g)) (Fin (installs g)) (Fin (impressions g))
                   (Fin (revenue g)) (Fin (payers g)))"
      using that by (rule aggregate_data_kpi)
    show ?thesis
      unfolding k
      using kpis_zero_safe [of "Fin (installs g)" "Fin (spend g)" "Fin (impressions g)"
          "Fin (revenue g)" "Fin (payers g)"]
        kpis_finite [of "calc_kpis (Fin (spend g)) (Fin (installs g)) (Fin (impressions g))
                   (Fin (revenue g)) (Fin (payers g))"]
      by simp
  qed
  from rows fin groups show ?thesis
    by blast
qed

theorem kpis_zero_denominator_witness:
  "Fin 0 = Fin 0 \<and> aggregate_data [row_Z] [AppName] = Inr [group_Z]
   \<and> installs group_Z = 0 \<and> impressions group_Z = 0 \<and> spend group_Z = 0 \<and> payers group_Z = 0
   \<and> CPI (load_data_kpis (Fin 0) (Fin 0) (Fin 0) (Fin 7) (Fin 0)) = Fin 0
   \<and> IPM (load_data_kpis (Fin 0) (Fin 0) (Fin 0) (Fin 7) (Fin 0)) = Fin 0
   \<and> CPM (load_data_kpis (Fin 0) (Fin 0) (Fin 0) (Fin 7) (Fin 0)) = Fin 0
   \<and> ROAS (load_data_kpis (Fin 0) (Fin 0) (Fin 0) (Fin 7) (Fin 0)) = Fin 0
   \<and> Payers_pct (load_data_kpis (Fin 0) (Fin 0) (Fin 0) (Fin 7) (Fin 0)) = Fin 0
   \<and> ARPI (load_data_kpis (Fin 0) (Fin 0) (Fin 0) (Fin 7) (Fin 0)) = Fin 0
   \<and> ARPP (load_data_kpis (Fin 0) (Fin 0) (Fin 0) (Fin 7) (Fin 0)) = Fin 0
   \<and> CPI (kpi group_Z) = Fin 0 \<and> IPM (kpi group_Z) = Fin 0 \<and> CPM (kpi group_Z) = Fin 0
   \<and> ROAS (kpi group_Z) = Fin 0 \<and> Payers_pct (kpi group_Z) = Fin 0
   \<and> ARPI (kpi group_Z) = Fin 0 \<and> ARPP (kpi group_Z) = Fin 0"
proof -
  have h: "aggregate_data [row_Z] [AppName] = Inr [group_Z]"
    by (simp add: aggregate_data_def Let_def notna_key_def group_key_def row_Z_def
        agg_group_def fill_kpis_def calc_kpis_def fill0_def group_Z_def)
  have z: "installs group_Z = 0" "impressions group_Z = 0" "spend group_Z = 0"
    "payers group_Z = 0"
    by (simp_all add: group_Z_def)
  have m: "group_Z \<in> set [group_Z]"
    by simp
  from kpis_zero_denominator [of "Fin 0" "Fin 0" "Fin 0" "Fin 7" "Fin 0"
      "[row_Z]" "[AppName]" "[group_Z]"] h z m
  show ?thesis
    by blast
qed


subsection \<open>One group per key\<close>

lemma kpis_nonzero:
  assumes "i \<noteq> 0" "m \<noteq> 0" "s \<noteq> 0" "p \<noteq> 0"
  shows "fill_kpis (calc_kpis (Fin s) (Fin i) (Fin m) (Fin v) (Fin p)) =
           \<lparr> CPI = Fin (s / i), IPM = Fin (i / (m / 1000)), CPM = Fin (s / (m / 1000)),
             ROAS = Fin (v / s), Payers_pct = Fin (p / i), ARPI = Fin (v / i),
             ARPP = Fin (v / p) \<rparr>"
  using assms by (simp add: fill_kpis_def calc_kpis_def fill0_def)




end
